theory Spec2Isabelle
  imports Complex_Main
begin

section \<open>Data model\<close>

text \<open>
  The fleet simulator is written in Python. Its floats are modelled as \<^typ>\<open>real\<close> (exact
  arithmetic), vertex indices as \<^typ>\<open>nat\<close>, robot and task identifiers as \<^typ>\<open>string\<close>,
  and every reading of the wall clock (\<^verbatim>\<open>time.time()\<close>) or of the random task-id
  generator (\<^verbatim>\<open>uuid.uuid4()\<close>) as an explicit argument of the function that reads it.
  Mutation of an object is explicit state passing: a method takes the object and returns
  the updated one. A method that can raise returns the object as the exception leaves it,
  together with the error.
\<close>

datatype error = ValueError | IndexError | KeyError

datatype robot_state = IDLE | MOVING | WAITING | CHARGING | TASK_COMPLETE

record robot =
  robot_id :: string
  position_idx :: nat
  position :: "real \<times> real"
  color :: string
  state :: robot_state
  path :: "nat list"
  current_path_index :: nat
  destination_idx :: "nat option"
  task_id :: "string option"
  last_update_time :: real
  target_position :: "real \<times> real"
  progress :: real
  path_blocked :: bool
  battery_level :: real
  speed :: real
  blocked_time :: real

subsection \<open>\<^verbatim>\<open>models/robot.py\<close>\<close>

definition DEFAULT_SPEED :: real where
  "DEFAULT_SPEED = 1.0"

text \<open>\<^verbatim>\<open>Robot.__init__\<close>; \<open>now\<close> is the clock reading stored in \<^verbatim>\<open>last_update_time\<close>.\<close>

definition new_robot :: "string \<Rightarrow> nat \<Rightarrow> real \<times> real \<Rightarrow> string \<Rightarrow> real \<Rightarrow> robot" where
  "new_robot rid pidx pos col now =
     \<lparr> robot_id = rid, position_idx = pidx, position = pos, color = col, state = IDLE,
       path = [], current_path_index = 0, destination_idx = None, task_id = None,
       last_update_time = now, target_position = pos, progress = 0.0,
       path_blocked = False, battery_level = 100.0, speed = DEFAULT_SPEED,
       blocked_time = 0 \<rparr>"

text \<open>
  \<^verbatim>\<open>Robot.assign_task\<close>. The four assignments at the top of the method run before anything
  is checked; \<^verbatim>\<open>path[0]\<close> raises \<^verbatim>\<open>IndexError\<close> on an empty path, and the method raises
  \<^verbatim>\<open>ValueError\<close> when the robot is not at the first vertex of the path. \<open>tid\<close> is the
  freshly generated task identifier.
\<close>

definition assign_task :: "robot \<Rightarrow> nat \<Rightarrow> nat list \<Rightarrow> string \<Rightarrow> robot \<times> error option" where
  "assign_task r dest p tid =
     (let r1 = r\<lparr> destination_idx := Some dest, path := p, current_path_index := 0,
                  task_id := Some tid \<rparr>
      in case p of
           [] \<Rightarrow> (r1, Some IndexError)
         | v # _ \<Rightarrow>
             if position_idx r1 \<noteq> v then (r1, Some ValueError)
             else
               (let r2 = (if length p = 1 then r1\<lparr> state := TASK_COMPLETE \<rparr>
                          else r1\<lparr> state := MOVING, progress := 0.0 \<rparr>)
                in (r2\<lparr> path_blocked := False, blocked_time := 0 \<rparr>, None)))"

definition get_next_vertex :: "robot \<Rightarrow> nat option" where
  "get_next_vertex r =
     (if path r = [] \<or> current_path_index r \<ge> length (path r) - 1 then None
      else Some (path r ! (current_path_index r + 1)))"

definition get_current_lane :: "robot \<Rightarrow> (nat \<times> nat) option" where
  "get_current_lane r =
     (if state r \<noteq> MOVING \<or> path r = [] \<or> current_path_index r \<ge> length (path r) - 1
      then None
      else Some (path r ! current_path_index r, path r ! (current_path_index r + 1)))"

definition set_waiting :: "robot \<Rightarrow> real \<Rightarrow> robot" where
  "set_waiting r now =
     (if state r \<noteq> WAITING then r\<lparr> state := WAITING, blocked_time := now \<rparr> else r)"

definition resume_movement :: "robot \<Rightarrow> robot" where
  "resume_movement r =
     (if state r = WAITING then r\<lparr> state := MOVING, blocked_time := 0 \<rparr> else r)"

text \<open>
  The part of \<^verbatim>\<open>Robot.update\<close> under the comment \<^verbatim>\<open># Robot is moving\<close>. The three callbacks
  are arguments, as in the source. The \<^verbatim>\<open>return True\<close> inside the arrival branch leaves
  the method before the battery line.
\<close>

definition update_moving ::
  "robot \<Rightarrow> real \<Rightarrow> real \<Rightarrow> (nat \<Rightarrow> real \<times> real) \<Rightarrow> (nat \<Rightarrow> nat \<Rightarrow> real) \<Rightarrow>
   (nat \<Rightarrow> nat \<Rightarrow> string \<Rightarrow> bool) \<Rightarrow> robot \<times> bool" where
  "update_moving r now delta_time get_vertex_coords calculate_distance is_lane_blocked =
     (if current_path_index r < length (path r) - 1 then
        (let current_vertex_idx = path r ! current_path_index r;
             next_vertex_idx = path r ! (current_path_index r + 1)
         in if is_lane_blocked current_vertex_idx next_vertex_idx (robot_id r)
            then (set_waiting r now, True)
            else
              (let start_pos = get_vertex_coords current_vertex_idx;
                   end_pos = get_vertex_coords next_vertex_idx;
                   total_distance = calculate_distance current_vertex_idx next_vertex_idx;
                   distance_to_move = speed r * delta_time;
                   progress_increment =
                     (if total_distance > 0 then distance_to_move / total_distance else 1.0);
                   p = min 1.0 (max 0.0 (progress r + progress_increment));
                   r1 = r\<lparr> progress := p,
                           position := (fst start_pos + (fst end_pos - fst start_pos) * p,
                                        snd start_pos + (snd end_pos - snd start_pos) * p) \<rparr>;
                   r2 = (if p \<ge> 1.0
                         then r1\<lparr> position := end_pos, position_idx := next_vertex_idx,
                                  current_path_index := current_path_index r1 + 1,
                                  progress := 0.0 \<rparr>
                         else r1)
               in if p \<ge> 1.0 \<and> current_path_index r2 \<ge> length (path r2) - 1
                  then (r2\<lparr> state := TASK_COMPLETE \<rparr>, True)
                  else (r2\<lparr> battery_level :=
                               max 0.0 (battery_level r2 - 0.01 * distance_to_move) \<rparr>,
                        True)))
      else (r, False))"

text \<open>
  \<^verbatim>\<open>Robot.update\<close>. A waiting robot first reads \<^verbatim>\<open>self.path[self.current_path_index]\<close>,
  which raises \<^verbatim>\<open>IndexError\<close> when the index is outside the path; nothing has been
  changed at that point. \<open>now\<close> is the clock reading \<^verbatim>\<open>set_waiting\<close> stores.
\<close>

definition update ::
  "robot \<Rightarrow> real \<Rightarrow> real \<Rightarrow> (nat \<Rightarrow> real \<times> real) \<Rightarrow> (nat \<Rightarrow> nat \<Rightarrow> real) \<Rightarrow>
   (nat \<Rightarrow> nat \<Rightarrow> string \<Rightarrow> bool) \<Rightarrow> error + robot \<times> bool" where
  "update r now delta_time get_vertex_coords calculate_distance is_lane_blocked =
     (if state r \<noteq> MOVING \<and> state r \<noteq> WAITING then Inr (r, False)
      else if state r = WAITING then
        (if current_path_index r \<ge> length (path r) then Inl IndexError
         else
           (let current_vertex = path r ! current_path_index r
            in case get_next_vertex r of
                 None \<Rightarrow> Inr (r, False)
               | Some next_vertex \<Rightarrow>
                   if \<not> is_lane_blocked current_vertex next_vertex (robot_id r)
                   then Inr (update_moving (resume_movement r) now delta_time
                               get_vertex_coords calculate_distance is_lane_blocked)
                   else Inr (r, False)))
      else Inr (update_moving r now delta_time
                  get_vertex_coords calculate_distance is_lane_blocked))"


text \<open>A point on the straight line segment between two points.\<close>

definition on_segment :: "real \<times> real \<Rightarrow> real \<times> real \<Rightarrow> real \<times> real \<Rightarrow> bool" where
  "on_segment p a b =
     (\<exists>t. 0 \<le> t \<and> t \<le> 1 \<and>
          p = (fst a + (fst b - fst a) * t, snd a + (snd b - snd a) * t))"

subsection \<open>\<^verbatim>\<open>models/nav_graph.py\<close>\<close>

text \<open>
  A vertex is its coordinate pair; a lane carries its two endpoints and the length cached
  when the graph is loaded. The attribute dictionaries serve only names and display and
  are left out. \<^verbatim>\<open>adjacency_list\<close> is a dictionary from vertex index to the list of
  (neighbour, length) pairs.
\<close>

record lane =
  start_idx :: nat
  end_idx :: nat
  lane_length :: real

record nav_graph =
  vertices :: "(real \<times> real) list"
  lanes :: "lane list"
  adjacency_list :: "nat \<rightharpoonup> (nat \<times> real) list"

text \<open>\<^verbatim>\<open>NavGraph.calculate_distance\<close>: indexing the vertex list raises outside its range.\<close>

definition calculate_distance :: "(real \<times> real) list \<Rightarrow> nat \<Rightarrow> nat \<Rightarrow> error + real" where
  "calculate_distance vs s e =
     (if s < length vs \<and> e < length vs
      then Inr (sqrt ((fst (vs ! s) - fst (vs ! e))\<^sup>2 + (snd (vs ! s) - snd (vs ! e))\<^sup>2))
      else Inl IndexError)"

definition get_vertex_coords :: "nav_graph \<Rightarrow> nat \<Rightarrow> error + real \<times> real" where
  "get_vertex_coords g i =
     (if i < length (vertices g) then Inr (vertices g ! i) else Inl IndexError)"





text \<open>
  Tentative distances are floats that start at \<^verbatim>\<open>float('infinity')\<close>: a number or infinity.
\<close>

datatype pyfloat = Num real | Infty

fun float_less :: "pyfloat \<Rightarrow> pyfloat \<Rightarrow> bool" where
  "float_less (Num a) (Num b) = (a < b)"
| "float_less (Num a) Infty = True"
| "float_less Infty _ = False"

fun float_add :: "pyfloat \<Rightarrow> real \<Rightarrow> pyfloat" where
  "float_add (Num a) len = Num (a + len)"
| "float_add Infty len = Infty"

text \<open>
  \<^verbatim>\<open>min(unvisited, key=lambda x: distances[x])\<close>: the first element, in iteration order,
  whose key is smallest. \<^verbatim>\<open>unvisited\<close> is a set of small integers built from
  \<^verbatim>\<open>range\<close>, which CPython iterates in increasing order; it is the list of its elements in
  that order.
\<close>

fun min_from :: "(nat \<rightharpoonup> pyfloat) \<Rightarrow> nat \<Rightarrow> pyfloat \<Rightarrow> nat list \<Rightarrow> error + nat" where
  "min_from distances best best_key [] = Inr best"
| "min_from distances best best_key (x # xs) =
     (case distances x of
        None \<Rightarrow> Inl KeyError
      | Some k \<Rightarrow>
          if float_less k best_key then min_from distances x k xs
          else min_from distances best best_key xs)"

definition min_unvisited :: "(nat \<rightharpoonup> pyfloat) \<Rightarrow> nat list \<Rightarrow> error + nat" where
  "min_unvisited distances unvisited =
     (case unvisited of
        [] \<Rightarrow> Inl ValueError
      | x # xs \<Rightarrow>
          (case distances x of
             None \<Rightarrow> Inl KeyError
           | Some k \<Rightarrow> min_from distances x k xs))"

text \<open>The \<^verbatim>\<open>for neighbor, length in self.adjacency_list[current]\<close> loop.\<close>

fun relax ::
  "nat \<Rightarrow> (nat \<times> real) list \<Rightarrow> (nat \<rightharpoonup> pyfloat) \<Rightarrow> (nat \<rightharpoonup> nat option) \<Rightarrow>
   error + (nat \<rightharpoonup> pyfloat) \<times> (nat \<rightharpoonup> nat option)" where
  "relax current [] distances previous = Inr (distances, previous)"
| "relax current ((neighbor, len) # rest) distances previous =
     (case distances current of
        None \<Rightarrow> Inl KeyError
      | Some dc \<Rightarrow>
          (let alternative_route = float_add dc len
           in case distances neighbor of
                None \<Rightarrow> Inl KeyError
              | Some dn \<Rightarrow>
                  if float_less alternative_route dn
                  then relax current rest (distances(neighbor \<mapsto> alternative_route))
                         (previous(neighbor \<mapsto> Some current))
                  else relax current rest distances previous))"

lemma min_from_mem: "min_from d b k xs = Inr c \<Longrightarrow> c = b \<or> c \<in> set xs"
  by (induction xs arbitrary: b k) (auto split: option.splits if_splits)

lemma min_unvisited_mem: "min_unvisited d xs = Inr c \<Longrightarrow> c \<in> set xs"
  by (auto simp: min_unvisited_def split: list.splits option.splits dest: min_from_mem)

text \<open>The \<^verbatim>\<open>while unvisited\<close> loop of \<^verbatim>\<open>find_shortest_path\<close>.\<close>

function dijkstra_loop ::
  "(nat \<rightharpoonup> (nat \<times> real) list) \<Rightarrow> nat \<Rightarrow> (nat \<rightharpoonup> pyfloat) \<Rightarrow> (nat \<rightharpoonup> nat option) \<Rightarrow>
   nat list \<Rightarrow> error + (nat \<rightharpoonup> pyfloat) \<times> (nat \<rightharpoonup> nat option)" where
  "dijkstra_loop adj end_i distances previous unvisited =
     (if unvisited = [] then Inr (distances, previous)
      else
        (case min_unvisited distances unvisited of
           Inl err \<Rightarrow> Inl err
         | Inr current \<Rightarrow>
             (case distances current of
                None \<Rightarrow> Inl KeyError
              | Some dc \<Rightarrow>
                  if current = end_i \<or> dc = Infty then Inr (distances, previous)
                  else
                    (case adj current of
                       None \<Rightarrow> Inl KeyError
                     | Some neighbours \<Rightarrow>
                         (case relax current neighbours distances previous of
                            Inl err \<Rightarrow> Inl err
                          | Inr (distances', previous') \<Rightarrow>
                              dijkstra_loop adj end_i distances' previous'
                                (remove1 current unvisited))))))"
  by pat_completeness auto
termination
  by (relation "measure (\<lambda>(adj, e, d, p, u). length u)")
     (auto dest!: min_unvisited_mem simp: length_remove1 intro: length_pos_if_in_set)

declare dijkstra_loop.simps [simp del]

text \<open>
  The \<^verbatim>\<open>while current is not None\<close> loop that follows \<^verbatim>\<open>previous\<close> back from the end
  vertex. It runs for as long as the chain goes on; not returning is the value \<open>None\<close>.
\<close>

partial_function (option) reconstruct ::
  "(nat \<rightharpoonup> nat option) \<Rightarrow> nat option \<Rightarrow> nat list \<Rightarrow> (error + nat list) option" where
  "reconstruct previous current pth =
     (case current of
        None \<Rightarrow> Some (Inr pth)
      | Some c \<Rightarrow>
          (case previous c of
             None \<Rightarrow> Some (Inl KeyError)
           | Some nxt \<Rightarrow> reconstruct previous nxt (pth @ [c])))"

declare reconstruct.simps [code]

definition find_shortest_path :: "nav_graph \<Rightarrow> nat \<Rightarrow> nat \<Rightarrow> (error + nat list) option" where
  "find_shortest_path g start_i end_i =
     (if start_i = end_i then Some (Inr [start_i])
      else
        (let n = length (vertices g);
             distances = (\<lambda>i. if i < n then Some Infty else None)(start_i \<mapsto> Num 0);
             previous = (\<lambda>i. if i < n then Some None else None);
             unvisited = [0..<n]
         in case dijkstra_loop (adjacency_list g) end_i distances previous unvisited of
              Inl err \<Rightarrow> Some (Inl err)
            | Inr (distances', previous') \<Rightarrow>
                (case previous' end_i of
                   None \<Rightarrow> Some (Inl KeyError)
                 | Some pe \<Rightarrow>
                     if pe = None \<and> end_i \<noteq> start_i then Some (Inr [])
                     else
                       (case reconstruct previous' (Some end_i) [] of
                          None \<Rightarrow> None
                        | Some (Inl err) \<Rightarrow> Some (Inl err)
                        | Some (Inr pth) \<Rightarrow> Some (Inr (rev pth))))))"

subsection \<open>Paths and their lengths\<close>





text \<open>
  The same on an adjacency dictionary with a weight for every pair of vertices, which is
  what the search works on.
\<close>

definition edge :: "(nat \<rightharpoonup> (nat \<times> real) list) \<Rightarrow> nat \<Rightarrow> nat \<Rightarrow> bool" where
  "edge adj u v = (\<exists>ns len. adj u = Some ns \<and> (v, len) \<in> set ns)"

fun walk :: "(nat \<rightharpoonup> (nat \<times> real) list) \<Rightarrow> nat list \<Rightarrow> bool" where
  "walk adj [] = False"
| "walk adj [v] = True"
| "walk adj (u # v # rest) = (edge adj u v \<and> walk adj (v # rest))"




text \<open>The order on tentative distances: infinity is the largest.\<close>

definition fle :: "pyfloat \<Rightarrow> pyfloat \<Rightarrow> bool" where
  "fle a b = (\<not> float_less b a)"



subsection \<open>\<^verbatim>\<open>controllers/fleet_manager.py\<close>\<close>

text \<open>
  \<^verbatim>\<open>robots\<close> is a dictionary from robot id to robot, iterated in insertion order: the list
  of its items in that order. The log lines are left out: they change nothing the
  simulation reads. The accessors of the nav graph that \<^verbatim>\<open>update_robots\<close> calls for a
  robot (coordinates, distance, and the vertex names of its log lines) are taken to
  return, as they do for the vertices of the graph.
\<close>

record fleet_manager =
  nav_graph :: nav_graph
  robots :: "(string \<times> robot) list"
  robot_count :: nat
  occupied_lanes :: "nat \<times> nat \<rightharpoonup> string"

text \<open>\<^verbatim>\<open>FleetManager.is_lane_blocked\<close>, on the occupied-lanes table.\<close>

definition is_lane_blocked :: "(nat \<times> nat \<rightharpoonup> string) \<Rightarrow> nat \<Rightarrow> nat \<Rightarrow> string \<Rightarrow> bool" where
  "is_lane_blocked occ s e rid =
     (let blocking_robot_id = occ (s, e)
      in blocking_robot_id \<noteq> None \<and> blocking_robot_id \<noteq> Some rid)"

text \<open>The robot object stored under a key is changed in place.\<close>

fun store_robot :: "string \<Rightarrow> robot \<Rightarrow> (string \<times> robot) list \<Rightarrow> (string \<times> robot) list" where
  "store_robot k r [] = []"
| "store_robot k r ((k', r') # rest) =
     (if k' = k then (k', r) # rest else (k', r') # store_robot k r rest)"

text \<open>
  \<^verbatim>\<open>FleetManager.assign_task\<close>. The path search runs outside the \<^verbatim>\<open>try\<close> block, so its
  error leaves the method; an error of \<^verbatim>\<open>Robot.assign_task\<close>, or of the two vertex-name
  lookups for the log line that follow it, is caught and gives \<^verbatim>\<open>False\<close>.
\<close>

definition fleet_assign_task ::
  "fleet_manager \<Rightarrow> string \<Rightarrow> nat \<Rightarrow> string \<Rightarrow> (error + fleet_manager \<times> bool) option" where
  "fleet_assign_task fm rid dest tid =
     (case map_of (robots fm) rid of
        None \<Rightarrow> Some (Inr (fm, False))
      | Some r \<Rightarrow>
          if state r = MOVING \<or> state r = WAITING then Some (Inr (fm, False))
          else
            (let start = position_idx r
             in case find_shortest_path (nav_graph fm) start dest of
                  None \<Rightarrow> None
                | Some (Inl err) \<Rightarrow> Some (Inl err)
                | Some (Inr p) \<Rightarrow>
                    if p = [] then Some (Inr (fm, False))
                    else
                      (let (r', err) = assign_task r dest p tid;
                           fm' = fm\<lparr> robots := store_robot rid r' (robots fm) \<rparr>;
                           n = length (vertices (nav_graph fm))
                       in Some (Inr (fm', err = None \<and> start < n \<and> dest < n)))))"

text \<open>The first loop of \<^verbatim>\<open>update_robots\<close>: mark the lane of every robot that reports one.\<close>

fun mark_lanes :: "(string \<times> robot) list \<Rightarrow> (nat \<times> nat \<rightharpoonup> string) \<Rightarrow> (nat \<times> nat \<rightharpoonup> string)" where
  "mark_lanes [] occ = occ"
| "mark_lanes ((k, r) # rest) occ =
     (case get_current_lane r of
        None \<Rightarrow> mark_lanes rest occ
      | Some l \<Rightarrow> mark_lanes rest (occ(l \<mapsto> k)))"

text \<open>
  What \<^verbatim>\<open>update_robots\<close> does with the table after the update of one robot: when the
  robot reports a change and has a current lane, the lane is written under the robot's
  key.
\<close>

definition write_lane ::
  "(nat \<times> nat \<rightharpoonup> string) \<Rightarrow> string \<Rightarrow> robot \<Rightarrow> bool \<Rightarrow> (nat \<times> nat \<rightharpoonup> string)" where
  "write_lane occ k r state_changed =
     (if state_changed
      then (case get_current_lane r of
              None \<Rightarrow> occ
            | Some l \<Rightarrow> occ(l \<mapsto> k))
      else occ)"

text \<open>
  The second loop: update every robot in turn against the table as it stands, then write
  its lane. The two accessors of the nav graph that \<^verbatim>\<open>update_robots\<close> hands to
  \<^verbatim>\<open>Robot.update\<close> are arguments. An error raised by \<^verbatim>\<open>Robot.update\<close> ends the pass
  where it stands.
\<close>

fun update_each ::
  "real \<Rightarrow> real \<Rightarrow> (nat \<Rightarrow> real \<times> real) \<Rightarrow> (nat \<Rightarrow> nat \<Rightarrow> real) \<Rightarrow>
   (nat \<times> nat \<rightharpoonup> string) \<Rightarrow> (string \<times> robot) list \<Rightarrow>
   (nat \<times> nat \<rightharpoonup> string) \<times> (string \<times> robot) list \<times> error option" where
  "update_each now dt coords distance occ [] = (occ, [], None)"
| "update_each now dt coords distance occ ((k, r) # rest) =
     (case update r now dt coords distance (is_lane_blocked occ) of
        Inl err \<Rightarrow> (occ, (k, r) # rest, Some err)
      | Inr (r', state_changed) \<Rightarrow>
          (let (occ', rest', err) =
                 update_each now dt coords distance (write_lane occ k r' state_changed) rest
           in (occ', (k, r') # rest', err)))"

definition update_robots ::
  "fleet_manager \<Rightarrow> real \<Rightarrow> real \<Rightarrow> (nat \<Rightarrow> real \<times> real) \<Rightarrow> (nat \<Rightarrow> nat \<Rightarrow> real) \<Rightarrow>
   fleet_manager \<times> error option" where
  "update_robots fm now delta_time coords distance =
     (let occ0 = mark_lanes (robots fm) Map.empty;
          (occ, rs, err) = update_each now delta_time coords distance occ0 (robots fm)
      in (fm\<lparr> robots := rs, occupied_lanes := occ \<rparr>, err))"

subsection \<open>\<^verbatim>\<open>controllers/traffic_manager.py\<close>\<close>

record traffic_manager =
  intersection_slots :: "nat \<rightharpoonup> string \<times> real"
  lane_reservations :: "nat \<times> nat \<rightharpoonup> string \<times> real"

text \<open>
  \<^verbatim>\<open>TrafficManager.process_waiting_robots\<close>, on the fleet manager it holds: the step taken
  for one robot, and the loop over all of them.
\<close>

definition process_waiting_robot :: "(nat \<times> nat \<rightharpoonup> string) \<Rightarrow> string \<Rightarrow> robot \<Rightarrow> robot" where
  "process_waiting_robot occ rid r =
     (if state r = WAITING then
        (case get_current_lane r of
           None \<Rightarrow> r
         | Some l \<Rightarrow>
             if \<not> is_lane_blocked occ (fst l) (snd l) rid then resume_movement r else r)
      else r)"

definition process_waiting_robots :: "fleet_manager \<Rightarrow> fleet_manager" where
  "process_waiting_robots fm =
     fm\<lparr> robots := map (\<lambda>(k, r). (k, process_waiting_robot (occupied_lanes fm) k r))
                        (robots fm) \<rparr>"

text \<open>A lease is live for a requester when another robot holds it and it has not run out.\<close>

definition held_by_other :: "(string \<times> real) option \<Rightarrow> string \<Rightarrow> real \<Rightarrow> bool" where
  "held_by_other entry rid current_time =
     (case entry of
        None \<Rightarrow> False
      | Some (reserved_robot_id, expiry_time) \<Rightarrow>
          reserved_robot_id \<noteq> rid \<and> expiry_time > current_time)"

definition reserve_lane ::
  "traffic_manager \<Rightarrow> nat \<times> nat \<Rightarrow> string \<Rightarrow> real \<Rightarrow> real \<Rightarrow> traffic_manager \<times> bool" where
  "reserve_lane tm l rid duration current_time =
     (if held_by_other (lane_reservations tm l) rid current_time then (tm, False)
      else (tm\<lparr> lane_reservations :=
                  (lane_reservations tm)(l \<mapsto> (rid, current_time + duration)) \<rparr>, True))"

definition reserve_intersection ::
  "traffic_manager \<Rightarrow> nat \<Rightarrow> string \<Rightarrow> real \<Rightarrow> real \<Rightarrow> traffic_manager \<times> bool" where
  "reserve_intersection tm v rid duration current_time =
     (if held_by_other (intersection_slots tm v) rid current_time then (tm, False)
      else (tm\<lparr> intersection_slots :=
                  (intersection_slots tm)(v \<mapsto> (rid, current_time + duration)) \<rparr>, True))"

definition clear_expired_reservations :: "traffic_manager \<Rightarrow> real \<Rightarrow> traffic_manager" where
  "clear_expired_reservations tm current_time =
     tm\<lparr> lane_reservations :=
            (\<lambda>l. case lane_reservations tm l of
                    None \<Rightarrow> None
                  | Some (rid, expiry_time) \<Rightarrow>
                      if expiry_time < current_time then None else Some (rid, expiry_time)),
         intersection_slots :=
            (\<lambda>v. case intersection_slots tm v of
                    None \<Rightarrow> None
                  | Some (rid, expiry_time) \<Rightarrow>
                      if expiry_time < current_time then None else Some (rid, expiry_time)) \<rparr>"

text \<open>
  The loop of \<^verbatim>\<open>check_path_availability\<close> over \<^verbatim>\<open>range(len(path) - 1)\<close>: at each step the
  lane from the vertex to its successor, then the vertex itself.
\<close>

fun check_from :: "traffic_manager \<Rightarrow> string \<Rightarrow> real \<Rightarrow> nat list \<Rightarrow> bool" where
  "check_from tm rid current_time (s # e # rest) =
     (if held_by_other (lane_reservations tm (s, e)) rid current_time then False
      else if held_by_other (intersection_slots tm s) rid current_time then False
      else check_from tm rid current_time (e # rest))"
| "check_from tm rid current_time _ = True"

definition check_path_availability :: "traffic_manager \<Rightarrow> nat list \<Rightarrow> string \<Rightarrow> real \<Rightarrow> bool" where
  "check_path_availability tm p rid current_time =
     (if p = [] \<or> length p < 2 then True else check_from tm rid current_time p)"

section \<open>Task assignment\<close>

text \<open>
  Claim C5. A rejected operation leaves every entity as it was before the call; in
  particular, when \<^verbatim>\<open>Robot.assign_task\<close> raises, no field of the robot has changed.
  \<^const>\<open>assign_task\<close> writes the destination, the path, the path index and the task
  identifier before it checks anything, so a call that raises leaves exactly these four
  fields overwritten: the robot after the call is the robot before it with the four
  fields replaced, which differs from the robot before the call whenever, for example,
  the rejected path is not the path the robot already had.
\<close>

theorem rejected_assign_task_keeps_writes:
  "snd (assign_task r dest p tid) = Some e \<Longrightarrow>
   fst (assign_task r dest p tid) =
     r\<lparr> destination_idx := Some dest, path := p, current_path_index := 0,
        task_id := Some tid \<rparr>"
  by (auto simp: assign_task_def Let_def split: list.splits if_splits)

theorem rejected_assign_task_keeps_writes_witness:
  "snd (assign_task (new_robot ''R1'' 0 (0, 0) ''#00FF00'' 0) 2 [1, 2] ''ab12cd34'')
     = Some ValueError \<and>
   path (fst (assign_task (new_robot ''R1'' 0 (0, 0) ''#00FF00'' 0) 2 [1, 2] ''ab12cd34''))
     = [1, 2] \<and>
   path (new_robot ''R1'' 0 (0, 0) ''#00FF00'' 0) = []"
proof -
  have h: "snd (assign_task (new_robot ''R1'' 0 (0, 0) ''#00FF00'' 0) 2 [1, 2] ''ab12cd34'')
             = Some ValueError"
    by (simp add: assign_task_def new_robot_def)
  show ?thesis
    using h rejected_assign_task_keeps_writes [OF h]
    by (simp add: new_robot_def)
qed

text \<open>
  Claim C6, as amended. \<^verbatim>\<open>Robot.assign_task\<close> does not look at the robot's state: the
  guard stands in \<^verbatim>\<open>FleetManager.assign_task\<close>. For every robot of the fleet whose state
  is \<^const>\<open>MOVING\<close> or \<^const>\<open>WAITING\<close>, \<^const>\<open>fleet_assign_task\<close> returns \<open>False\<close>
  and leaves the fleet manager as it was.
\<close>

theorem fleet_assign_task_rejects_busy_robot:
  assumes "map_of (robots fm) rid = Some r"
    and "state r = MOVING \<or> state r = WAITING"
  shows "fleet_assign_task fm rid dest tid = Some (Inr (fm, False))"
  using assms by (auto simp: fleet_assign_task_def)

theorem fleet_assign_task_rejects_busy_robot_witness:
  "fleet_assign_task
     \<lparr> nav_graph = \<lparr> vertices = [(0, 0), (3, 0)], lanes = [], adjacency_list = Map.empty \<rparr>,
       robots = [(''R1'', (new_robot ''R1'' 0 (0, 0) ''#00FF00'' 0)\<lparr> state := WAITING \<rparr>)],
       robot_count = 1, occupied_lanes = Map.empty \<rparr> ''R1'' 1 ''ab12cd34''
   = Some (Inr
      (\<lparr> nav_graph = \<lparr> vertices = [(0, 0), (3, 0)], lanes = [], adjacency_list = Map.empty \<rparr>,
         robots = [(''R1'', (new_robot ''R1'' 0 (0, 0) ''#00FF00'' 0)\<lparr> state := WAITING \<rparr>)],
         robot_count = 1, occupied_lanes = Map.empty \<rparr>, False))"
  by (rule fleet_assign_task_rejects_busy_robot
        [where r = "(new_robot ''R1'' 0 (0, 0) ''#00FF00'' 0)\<lparr> state := WAITING \<rparr>"])
     simp_all

text \<open>
  The claim as first stated fails: a robot in state \<^const>\<open>MOVING\<close> that stands at the
  first vertex of the path accepts the task from \<^const>\<open>assign_task\<close> without an error.
\<close>

theorem assign_task_accepts_moving_robot:
  "state ((new_robot ''R1'' 0 (0, 0) ''#00FF00'' 0)\<lparr> state := MOVING \<rparr>) = MOVING \<and>
   snd (assign_task ((new_robot ''R1'' 0 (0, 0) ''#00FF00'' 0)\<lparr> state := MOVING \<rparr>)
          1 [0, 1] ''ab12cd34'') = None"
  by (simp add: assign_task_def new_robot_def)

section \<open>Robot motion\<close>


lemma on_segment_start: "on_segment a a b"
  unfolding on_segment_def by (rule exI [of _ 0]) simp


















section \<open>Battery\<close>

text \<open>
  Claim C10. On every update in which the robot moves along an unblocked lane the battery
  level drops by \<open>0.01 * (speed * delta_time)\<close>, floored at \<open>0\<close>, the tick of arrival at the
  final vertex included. In \<^const>\<open>update\<close> the arrival at the final vertex returns
  before the battery line: whenever an update takes a moving or waiting robot to
  \<^const>\<open>TASK_COMPLETE\<close>, the battery level is what it was.
\<close>

theorem final_tick_keeps_battery:
  assumes "update r now dt coords distance blocked = Inr (r', changed)"
    and "state r = MOVING \<or> state r = WAITING"
    and "state r' = TASK_COMPLETE"
  shows "battery_level r' = battery_level r"
  using assms
  by (auto simp: update_def update_moving_def Let_def set_waiting_def resume_movement_def
           split: if_splits option.splits)

text \<open>On every other tick that moves the robot the battery line is reached.\<close>

lemma update_moving_battery:
  assumes "update_moving r now dt coords distance blocked = (r', True)"
    and "state r = MOVING" and "state r' = MOVING"
  shows "battery_level r' = max 0 (battery_level r - 0.01 * (speed r * dt))"
proof -
  have i: "current_path_index r < length (path r) - 1"
    using assms(1) by (auto simp: update_moving_def split: if_splits)
  have nb: "\<not> blocked (path r ! current_path_index r) (path r ! (current_path_index r + 1))
              (robot_id r)"
    using assms i by (auto simp: update_moving_def set_waiting_def Let_def split: if_splits)
  from assms(1,3) i nb show ?thesis
    unfolding update_moving_def Let_def
    by (simp split: if_splits) (auto)
qed

lemma final_tick_example:
  "update ((new_robot ''R1'' 0 (0, 0) ''#00FF00'' 0)\<lparr> state := MOVING, path := [0, 1], destination_idx := Some 1 \<rparr>)
     0 1 (\<lambda>v. (real v, 0)) (\<lambda>u v. 1) (\<lambda>u v k. False)
   = Inr ((new_robot ''R1'' 0 (0, 0) ''#00FF00'' 0)
            \<lparr> state := TASK_COMPLETE, path := [0, 1], destination_idx := Some 1, position := (1, 0),
               position_idx := 1, current_path_index := 1 \<rparr>, True)"
  by (simp add: update_def update_moving_def new_robot_def DEFAULT_SPEED_def Let_def)

theorem final_tick_keeps_battery_witness:
  "battery_level
     ((new_robot ''R1'' 0 (0, 0) ''#00FF00'' 0)
        \<lparr> state := TASK_COMPLETE, path := [0, 1], destination_idx := Some 1, position := (1, 0),
           position_idx := 1, current_path_index := 1 \<rparr>) = 100 \<and>
   max 0 (100 - 0.01 * (DEFAULT_SPEED * 1)) = (99.99 :: real)"
  using final_tick_keeps_battery [OF final_tick_example]
  by (simp add: new_robot_def DEFAULT_SPEED_def)

section \<open>Waiting robots\<close>

text \<open>
  Claim C3. \<^verbatim>\<open>process_waiting_robots\<close> sends every waiting robot whose pending lane is
  no longer blocked back to moving. \<^const>\<open>process_waiting_robot\<close> asks
  \<^const>\<open>get_current_lane\<close> for the lane, which is \<open>None\<close> for every robot that is not
  moving, so a waiting robot is always skipped: \<^const>\<open>process_waiting_robots\<close> changes
  no fleet.
\<close>

theorem process_waiting_robots_changes_nothing:
  "process_waiting_robots fm = fm"
proof -
  have "process_waiting_robot occ k r = r" for occ k r
    by (simp add: process_waiting_robot_def get_current_lane_def)
  then show ?thesis
    by (simp add: process_waiting_robots_def case_prod_unfold)
qed

theorem process_waiting_robots_changes_nothing_witness:
  "map (\<lambda>(k, r). (k, state r, get_next_vertex r))
     (robots (process_waiting_robots
        \<lparr> nav_graph = \<lparr> vertices = [(0, 0), (3, 0)], lanes = [], adjacency_list = Map.empty \<rparr>,
          robots = [(''R1'', (new_robot ''R1'' 0 (0, 0) ''#00FF00'' 0)
                               \<lparr> state := WAITING, path := [0, 1], destination_idx := Some 1 \<rparr>)],
          robot_count = 1, occupied_lanes = Map.empty \<rparr>))
   = [(''R1'', WAITING, Some 1)] \<and>
   \<not> is_lane_blocked Map.empty 0 1 ''R1''"
  using process_waiting_robots_changes_nothing
    [of "\<lparr> nav_graph = \<lparr> vertices = [(0, 0), (3, 0)], lanes = [], adjacency_list = Map.empty \<rparr>,
          robots = [(''R1'', (new_robot ''R1'' 0 (0, 0) ''#00FF00'' 0)
                               \<lparr> state := WAITING, path := [0, 1], destination_idx := Some 1 \<rparr>)],
          robot_count = 1, occupied_lanes = Map.empty \<rparr>"]
  by (simp add: new_robot_def get_next_vertex_def is_lane_blocked_def)

section \<open>Reservations\<close>

text \<open>
  Claim C7. \<^verbatim>\<open>reserve_lane\<close> and \<^verbatim>\<open>reserve_intersection\<close> return \<open>False\<close> and leave the
  tables as they were when another robot holds the entry with an expiry time later than
  the clock reading; when the entry is absent, has run out or belongs to the requester
  they return \<open>True\<close> and record the requester with the clock reading plus the duration.
  After a granted \<^verbatim>\<open>reserve_lane(L, "R1", 1.0)\<close>, the call \<^verbatim>\<open>reserve_lane(L, "R2", 1.0)\<close>
  made 0.1 seconds later returns \<open>False\<close>, and made 1.1 seconds after the first call it
  returns \<open>True\<close>.
\<close>

theorem reservation_lease:
  "(lane_reservations tm l = Some (h, e) \<and> h \<noteq> rid \<and> e > now
      \<longrightarrow> reserve_lane tm l rid d now = (tm, False)) \<and>
   (lane_reservations tm l = None \<or>
      (\<exists>h e. lane_reservations tm l = Some (h, e) \<and> (e \<le> now \<or> h = rid))
      \<longrightarrow> reserve_lane tm l rid d now =
            (tm\<lparr> lane_reservations := (lane_reservations tm)(l \<mapsto> (rid, now + d)) \<rparr>, True)) \<and>
   (intersection_slots tm v = Some (h, e) \<and> h \<noteq> rid \<and> e > now
      \<longrightarrow> reserve_intersection tm v rid d now = (tm, False)) \<and>
   (intersection_slots tm v = None \<or>
      (\<exists>h e. intersection_slots tm v = Some (h, e) \<and> (e \<le> now \<or> h = rid))
      \<longrightarrow> reserve_intersection tm v rid d now =
            (tm\<lparr> intersection_slots := (intersection_slots tm)(v \<mapsto> (rid, now + d)) \<rparr>, True)) \<and>
   (snd (reserve_lane tm l ''R1'' 1.0 now) \<longrightarrow>
      (let tm1 = fst (reserve_lane tm l ''R1'' 1.0 now)
       in reserve_lane tm1 l ''R2'' 1.0 (now + 0.1) = (tm1, False) \<and>
          snd (reserve_lane tm1 l ''R2'' 1.0 (now + 1.1))))"
  by (auto simp: reserve_lane_def reserve_intersection_def held_by_other_def Let_def)

theorem reservation_lease_witness:
  "reserve_lane \<lparr> intersection_slots = Map.empty, lane_reservations = [(0, 1) \<mapsto> (''R1'', 5)] \<rparr>
     (0, 1) ''R2'' 1 2
   = (\<lparr> intersection_slots = Map.empty, lane_reservations = [(0, 1) \<mapsto> (''R1'', 5)] \<rparr>, False) \<and>
   reserve_lane \<lparr> intersection_slots = Map.empty, lane_reservations = [(0, 1) \<mapsto> (''R1'', 5)] \<rparr>
     (2, 3) ''R2'' 1 2
   = (\<lparr> intersection_slots = Map.empty,
        lane_reservations = [(0, 1) \<mapsto> (''R1'', 5), (2, 3) \<mapsto> (''R2'', 3)] \<rparr>, True) \<and>
   reserve_intersection
     \<lparr> intersection_slots = [4 \<mapsto> (''R1'', 5)], lane_reservations = Map.empty \<rparr> 4 ''R2'' 1 2
   = (\<lparr> intersection_slots = [4 \<mapsto> (''R1'', 5)], lane_reservations = Map.empty \<rparr>, False) \<and>
   reserve_intersection
     \<lparr> intersection_slots = [4 \<mapsto> (''R1'', 5)], lane_reservations = Map.empty \<rparr> 4 ''R2'' 1 5
   = (\<lparr> intersection_slots = [4 \<mapsto> (''R2'', 6)], lane_reservations = Map.empty \<rparr>, True) \<and>
   snd (reserve_lane \<lparr> intersection_slots = Map.empty, lane_reservations = Map.empty \<rparr>
          (0, 1) ''R1'' 1.0 7) \<and>
   snd (reserve_lane
          (fst (reserve_lane \<lparr> intersection_slots = Map.empty, lane_reservations = Map.empty \<rparr>
                  (0, 1) ''R1'' 1.0 7))
          (0, 1) ''R2'' 1.0 (7 + 0.1)) = False \<and>
   snd (reserve_lane
          (fst (reserve_lane \<lparr> intersection_slots = Map.empty, lane_reservations = Map.empty \<rparr>
                  (0, 1) ''R1'' 1.0 7))
          (0, 1) ''R2'' 1.0 (7 + 1.1))"
proof -
  let ?a = "\<lparr> intersection_slots = Map.empty, lane_reservations = [(0, 1) \<mapsto> (''R1'', 5 :: real)] \<rparr>"
  let ?b = "\<lparr> intersection_slots = [4 \<mapsto> (''R1'', 5 :: real)], lane_reservations = Map.empty \<rparr>"
  let ?c = "\<lparr> intersection_slots = Map.empty :: nat \<rightharpoonup> string \<times> real,
              lane_reservations = Map.empty \<rparr>"
  have 1: "reserve_lane ?a (0, 1) ''R2'' 1 2 = (?a, False)"
    using reservation_lease [of ?a "(0, 1)" "''R1''" 5 "''R2''" 2 1 0] by simp
  have 2: "reserve_lane ?a (2, 3) ''R2'' 1 2
           = (?a\<lparr> lane_reservations := (lane_reservations ?a)((2, 3) \<mapsto> (''R2'', 2 + 1)) \<rparr>, True)"
    using reservation_lease [of ?a "(2, 3)" "''R1''" 5 "''R2''" 2 1 0] by simp
  have 3: "reserve_intersection ?b 4 ''R2'' 1 2 = (?b, False)"
    using reservation_lease [of ?b "(0, 1)" "''R1''" 5 "''R2''" 2 1 4] by simp
  have 4: "reserve_intersection ?b 4 ''R2'' 1 5
           = (?b\<lparr> intersection_slots := (intersection_slots ?b)(4 \<mapsto> (''R2'', 5 + 1)) \<rparr>, True)"
    using reservation_lease [of ?b "(0, 1)" "''R1''" 5 "''R2''" 5 1 4] by simp
  have 5: "snd (reserve_lane ?c (0, 1) ''R1'' 1.0 7)"
    by (simp add: reserve_lane_def held_by_other_def)
  have 6: "snd (reserve_lane (fst (reserve_lane ?c (0, 1) ''R1'' 1.0 7))
                  (0, 1) ''R2'' 1.0 (7 + 0.1)) = False \<and>
           snd (reserve_lane (fst (reserve_lane ?c (0, 1) ''R1'' 1.0 7))
                  (0, 1) ''R2'' 1.0 (7 + 1.1))"
    using reservation_lease [of ?c "(0, 1)" "''R1''" 5 "''R2''" 7 1 0] 5
    by (simp add: Let_def)
  from 1 2 3 4 5 6 show ?thesis by simp
qed

text \<open>
  Claim C8, as amended. \<^verbatim>\<open>check_path_availability\<close> returns \<open>True\<close> for a path of fewer
  than two vertices; it returns \<open>False\<close> when a lane between two consecutive vertices of
  the path, or a vertex of the path that has a successor, carries a lease that another
  robot holds and that has not run out; it returns \<open>True\<close> when no consecutive lane and
  no vertex of the path carries such a lease.
\<close>

lemma check_from_False:
  "i + 1 < length p \<Longrightarrow>
   held_by_other (lane_reservations tm (p ! i, p ! (i + 1))) rid now \<or>
   held_by_other (intersection_slots tm (p ! i)) rid now \<Longrightarrow>
   \<not> check_from tm rid now p"
proof (induction tm rid now p arbitrary: i rule: check_from.induct)
  case (1 tm rid now s e rest)
  show ?case
  proof (cases i)
    case 0
    with 1 show ?thesis by auto
  next
    case (Suc j)
    with 1 show ?thesis by (auto split: if_splits)
  qed
qed simp_all

lemma check_from_True:
  "(\<forall>i. i + 1 < length p \<longrightarrow>
       \<not> held_by_other (lane_reservations tm (p ! i, p ! (i + 1))) rid now \<and>
       \<not> held_by_other (intersection_slots tm (p ! i)) rid now) \<Longrightarrow>
   check_from tm rid now p"
proof (induction tm rid now p rule: check_from.induct)
  case (1 tm rid now s e rest)
  from "1.prems" [rule_format, of 0]
  have a: "\<not> held_by_other (lane_reservations tm (s, e)) rid now"
          "\<not> held_by_other (intersection_slots tm s) rid now"
    by simp_all
  have "\<not> held_by_other (lane_reservations tm ((e # rest) ! i, (e # rest) ! (i + 1))) rid now \<and>
        \<not> held_by_other (intersection_slots tm ((e # rest) ! i)) rid now"
    if "i + 1 < length (e # rest)" for i
    using "1.prems" [rule_format, of "Suc i"] that by simp
  with a 1 show ?case by simp
qed simp_all

theorem path_availability_amended:
  "(length p < 2 \<longrightarrow> check_path_availability tm p rid now) \<and>
   (i + 1 < length p \<and>
      (held_by_other (lane_reservations tm (p ! i, p ! (i + 1))) rid now \<or>
       held_by_other (intersection_slots tm (p ! i)) rid now)
      \<longrightarrow> \<not> check_path_availability tm p rid now) \<and>
   ((\<forall>j. j + 1 < length p \<longrightarrow>
        \<not> held_by_other (lane_reservations tm (p ! j, p ! (j + 1))) rid now) \<and>
    (\<forall>v \<in> set p. \<not> held_by_other (intersection_slots tm v) rid now)
      \<longrightarrow> check_path_availability tm p rid now)"
proof (intro conjI impI)
  show "check_path_availability tm p rid now" if "length p < 2"
    using that by (simp add: check_path_availability_def)
  show "\<not> check_path_availability tm p rid now"
    if "i + 1 < length p \<and>
      (held_by_other (lane_reservations tm (p ! i, p ! (i + 1))) rid now \<or>
       held_by_other (intersection_slots tm (p ! i)) rid now)"
    using that check_from_False [of i p tm rid now]
    by (auto simp: check_path_availability_def)
  show "check_path_availability tm p rid now"
    if h: "(\<forall>j. j + 1 < length p \<longrightarrow>
        \<not> held_by_other (lane_reservations tm (p ! j, p ! (j + 1))) rid now) \<and>
    (\<forall>v \<in> set p. \<not> held_by_other (intersection_slots tm v) rid now)"
  proof -
    have "check_from tm rid now p"
      by (rule check_from_True) (use h in auto)
    then show ?thesis by (simp add: check_path_availability_def)
  qed
qed

theorem path_availability_amended_witness:
  "check_path_availability
     \<lparr> intersection_slots = [0 \<mapsto> (''R2'', 10)], lane_reservations = Map.empty \<rparr> [0] ''R1'' 0 \<and>
   \<not> check_path_availability
     \<lparr> intersection_slots = [0 \<mapsto> (''R2'', 10)], lane_reservations = Map.empty \<rparr>
     [0, 1] ''R1'' 0 \<and>
   check_path_availability
     \<lparr> intersection_slots = [0 \<mapsto> (''R2'', 10)], lane_reservations = Map.empty \<rparr>
     [0, 1] ''R2'' 0"
proof -
  let ?tm = "\<lparr> intersection_slots = [0 \<mapsto> (''R2'', 10 :: real)],
               lane_reservations = Map.empty :: nat \<times> nat \<rightharpoonup> string \<times> real \<rparr>"
  have 1: "check_path_availability ?tm [0] ''R1'' 0"
    using path_availability_amended [of "[0]" ?tm "''R1''" 0 0] by simp
  have 2: "\<not> check_path_availability ?tm [0, 1] ''R1'' 0"
    using path_availability_amended [of "[0, 1]" ?tm "''R1''" 0 0]
    by (simp add: held_by_other_def)
  have 3: "check_path_availability ?tm [0, 1] ''R2'' 0"
    using path_availability_amended [of "[0, 1]" ?tm "''R2''" 0 0]
    by (simp add: held_by_other_def)
  from 1 2 3 show ?thesis by simp
qed

text \<open>
  The claim as first stated fails on a path of one vertex: the vertex carries a lease of
  another robot that has not run out, and the path is reported available.
\<close>

theorem single_vertex_path_available:
  "held_by_other
     (intersection_slots
        \<lparr> intersection_slots = [0 \<mapsto> (''R2'', 10)], lane_reservations = Map.empty \<rparr> 0)
     ''R1'' 0 \<and>
   0 \<in> set [0 :: nat] \<and>
   check_path_availability
     \<lparr> intersection_slots = [0 \<mapsto> (''R2'', 10)], lane_reservations = Map.empty \<rparr> [0] ''R1'' 0"
  by (simp add: check_path_availability_def held_by_other_def)

section \<open>Lane occupancy\<close>

lemma mark_lanes_absent:
  "\<forall>(k, r) \<in> set rs. get_current_lane r \<noteq> Some l \<Longrightarrow> mark_lanes rs occ l = occ l"
  by (induction rs arbitrary: occ) (auto split: option.splits)

lemma mark_lanes_keeps: "occ l \<noteq> None \<Longrightarrow> mark_lanes rs occ l \<noteq> None"
  by (induction rs arbitrary: occ) (auto split: option.splits)

lemma mark_lanes_present:
  "(k, r) \<in> set rs \<Longrightarrow> get_current_lane r = Some l \<Longrightarrow> mark_lanes rs occ l \<noteq> None"
proof (induction rs arbitrary: occ)
  case (Cons x rs)
  obtain k' r' where x: "x = (k', r')" by (cases x)
  show ?case
  proof (cases "(k, r) = x")
    case True
    with Cons.prems x show ?thesis by (simp add: mark_lanes_keeps)
  next
    case False
    with Cons x show ?thesis by (auto split: option.splits)
  qed
qed simp

lemma mark_lanes_value:
  "mark_lanes rs occ l = Some k \<Longrightarrow> occ l = Some k \<or> k \<in> fst ` set rs"
  by (induction rs arbitrary: occ) (force split: option.splits if_splits)+

lemma update_each_raise:
  "update r now dt c d (is_lane_blocked occ) = Inl e \<Longrightarrow>
   update_each now dt c d occ ((k, r) # rs) = (occ, (k, r) # rs, Some e)"
  by simp

lemma update_each_step:
  "update r now dt c d (is_lane_blocked occ) = Inr (r', ch) \<Longrightarrow>
   update_each now dt c d occ ((k, r) # rs) =
     (fst (update_each now dt c d (write_lane occ k r' ch) rs),
      (k, r') # fst (snd (update_each now dt c d (write_lane occ k r' ch) rs)),
      snd (snd (update_each now dt c d (write_lane occ k r' ch) rs)))"
  by (simp add: Let_def split: prod.splits)

lemma write_lane_keeps: "occ l \<noteq> None \<Longrightarrow> write_lane occ k r ch l \<noteq> None"
  by (auto simp: write_lane_def split: option.splits)

lemma write_lane_value:
  "write_lane occ k r ch l = Some k' \<Longrightarrow> occ l = Some k' \<or> k' = k"
  by (auto simp: write_lane_def split: option.splits if_splits)

lemma update_each_keeps:
  "occ l \<noteq> None \<Longrightarrow> fst (update_each now dt c d occ rs) l \<noteq> None"
proof (induction rs arbitrary: occ)
  case (Cons x rs)
  obtain k r where x: "x = (k, r)" by (cases x)
  show ?case
  proof (cases "update r now dt c d (is_lane_blocked occ)")
    case (Inl e)
    with Cons.prems x show ?thesis by simp
  next
    case (Inr res)
    obtain r' ch where "res = (r', ch)" by (cases res)
    with Inr have u: "update r now dt c d (is_lane_blocked occ) = Inr (r', ch)" by simp
    have "write_lane occ k r' ch l \<noteq> None"
      using Cons.prems by (rule write_lane_keeps)
    with Cons.IH [of "write_lane occ k r' ch"] show ?thesis
      unfolding x update_each_step [OF u] by simp
  qed
qed simp

lemma update_each_value:
  "fst (update_each now dt c d occ rs) l = Some k' \<Longrightarrow> occ l = Some k' \<or> k' \<in> fst ` set rs"
proof (induction rs arbitrary: occ)
  case (Cons x rs)
  obtain k r where x: "x = (k, r)" by (cases x)
  show ?case
  proof (cases "update r now dt c d (is_lane_blocked occ)")
    case (Inl e)
    with Cons.prems x show ?thesis by simp
  next
    case (Inr res)
    obtain r' ch where "res = (r', ch)" by (cases res)
    with Inr have u: "update r now dt c d (is_lane_blocked occ) = Inr (r', ch)" by simp
    from Cons.prems have "fst (update_each now dt c d (write_lane occ k r' ch) rs) l = Some k'"
      unfolding x update_each_step [OF u] by simp
    with Cons.IH [of "write_lane occ k r' ch"] write_lane_value [of occ k r' ch l k']
    show ?thesis using x by auto
  qed
qed simp

lemma update_each_keys:
  "map fst (fst (snd (update_each now dt c d occ rs))) = map fst rs"
proof (induction rs arbitrary: occ)
  case (Cons x rs)
  obtain k r where x: "x = (k, r)" by (cases x)
  show ?case
  proof (cases "update r now dt c d (is_lane_blocked occ)")
    case (Inl e)
    with x show ?thesis by simp
  next
    case (Inr res)
    obtain r' ch where "res = (r', ch)" by (cases res)
    with Inr have u: "update r now dt c d (is_lane_blocked occ) = Inr (r', ch)" by simp
    show ?thesis
      unfolding x update_each_step [OF u] using Cons.IH by simp
  qed
qed simp

lemma update_each_append:
  "update_each now dt c d occ (xs @ ys) =
     (case update_each now dt c d occ xs of
        (occ1, xs', Some e) \<Rightarrow> (occ1, xs' @ ys, Some e)
      | (occ1, xs', None) \<Rightarrow>
          (case update_each now dt c d occ1 ys of
             (occ2, ys', err) \<Rightarrow> (occ2, xs' @ ys', err)))"
proof (induction xs arbitrary: occ)
  case Nil
  show ?case by (simp split: prod.splits)
next
  case (Cons x xs)
  obtain k r where x: "x = (k, r)" by (cases x)
  show ?case
  proof (cases "update r now dt c d (is_lane_blocked occ)")
    case (Inl e)
    with x show ?thesis by simp
  next
    case (Inr res)
    obtain r' ch where "res = (r', ch)" by (cases res)
    with Inr have u: "update r now dt c d (is_lane_blocked occ) = Inr (r', ch)" by simp
    show ?thesis
      unfolding x append_Cons update_each_step [OF u] Cons.IH
      by (simp split: prod.splits option.splits)
  qed
qed

lemma update_blocked:
  assumes "state x = MOVING \<or> state x = WAITING"
    and "current_path_index x < length (path x) - 1"
    and "blk (path x ! current_path_index x) (path x ! (current_path_index x + 1)) (robot_id x)"
  shows "\<exists>x' ch. update x now dt c d blk = Inr (x', ch) \<and> state x' = WAITING \<and>
           progress x' = progress x \<and> current_path_index x' = current_path_index x \<and>
           position x' = position x \<and> position_idx x' = position_idx x \<and> path x' = path x
           \<and> robot_id x' = robot_id x"
  using assms
  by (auto simp: update_def update_moving_def get_next_vertex_def set_waiting_def Let_def)


lemma get_current_lane_SomeD:
  "get_current_lane x = Some L \<Longrightarrow>
   state x = MOVING \<and> current_path_index x < length (path x) - 1 \<and>
   L = (path x ! current_path_index x, path x ! (current_path_index x + 1))"
  by (auto simp: get_current_lane_def split: if_splits)

lemma update_each_prefix:
  assumes "update_each now dt c d occ (xs @ ys) = (occ2, zs, None)"
  shows "\<exists>occ1 xs' ys'. update_each now dt c d occ xs = (occ1, xs', None) \<and>
           update_each now dt c d occ1 ys = (occ2, ys', None) \<and> zs = xs' @ ys'"
proof -
  obtain occ1 xs' e1 where 1: "update_each now dt c d occ xs = (occ1, xs', e1)"
    by (cases "update_each now dt c d occ xs") auto
  obtain o2 ys' e2 where 2: "update_each now dt c d occ1 ys = (o2, ys', e2)"
    by (cases "update_each now dt c d occ1 ys") auto
  from assms 1 2 show ?thesis
    by (cases e1) (simp_all add: update_each_append)
qed

lemma turn_table_value:
  assumes "update_each now dt c d occ pre = (occ1, pre', e)" and "occ l \<noteq> None"
  shows "\<exists>k. occ1 l = Some k \<and> (occ l = Some k \<or> k \<in> fst ` set pre)"
proof -
  have "fst (update_each now dt c d occ pre) l \<noteq> None"
    using assms(2) by (rule update_each_keeps)
  then obtain k where k: "fst (update_each now dt c d occ pre) l = Some k" by auto
  from update_each_value [OF k] k assms(1) show ?thesis by simp
qed


lemma update_robots_unfold:
  "update_robots fm now dt c d =
     (fm\<lparr> robots := fst (snd (update_each now dt c d (mark_lanes (robots fm) Map.empty) (robots fm))),
         occupied_lanes := fst (update_each now dt c d (mark_lanes (robots fm) Map.empty) (robots fm)) \<rparr>,
      snd (snd (update_each now dt c d (mark_lanes (robots fm) Map.empty) (robots fm))))"
  by (simp add: update_robots_def Let_def split: prod.splits)



lemma unblocked_holder:
  assumes lane: "get_current_lane a = Some L"
    and u: "update a now dt c d (is_lane_blocked occ) = Inr (a', ch)"
    and nw: "state a' \<noteq> WAITING"
    and pres: "occ L \<noteq> None"
  shows "occ L = Some (robot_id a)"
proof (rule ccontr)
  assume "occ L \<noteq> Some (robot_id a)"
  with pres have "is_lane_blocked occ (fst L) (snd L) (robot_id a)"
    by (simp add: is_lane_blocked_def)
  moreover note gl = get_current_lane_SomeD [OF lane]
  ultimately have b: "is_lane_blocked occ (path a ! current_path_index a)
      (path a ! (current_path_index a + 1)) (robot_id a)" by simp
  have s: "state a = MOVING \<or> state a = WAITING" using gl by simp
  have i: "current_path_index a < length (path a) - 1" using gl by simp
  from update_blocked [where blk = "is_lane_blocked occ", OF s i b, of now dt c d] u nw
  show False by auto
qed





text \<open>
  Claim C9. Within one pass of \<^verbatim>\<open>update_robots\<close> no entry leaves the occupied-lanes table:
  the lanes of the snapshot taken by \<^const>\<open>mark_lanes\<close> are still keys of the table
  that any later robot sees, and of the table the pass ends with. So when a robot that
  was moving on a lane is updated without being made to wait (it advanced along the lane,
  perhaps off its end, as the witness shows), the lane is still reported blocked to every
  robot updated after it in the same pass; and a table rebuilt by \<^const>\<open>mark_lanes\<close>
  from robots none of which is on the lane does not block it. \<open>occ_b\<close> is the table as
  the later robot finds it, \<open>a'\<close> the earlier robot after its update.
\<close>

theorem single_snapshot_occupancy:
  assumes "distinct (map fst (robots fm))"
    and "\<forall>(k, r) \<in> set (robots fm). robot_id r = k"
    and "robots fm = pre @ (ka, a) # mid @ (kb, b) # post"
    and "get_current_lane a = Some L"
    and "update_each now dt c d (mark_lanes (robots fm) Map.empty) (pre @ (ka, a) # mid)
           = (occ_b, seen, None)"
    and "map_of seen ka = Some a'" and "state a' \<noteq> WAITING"
  shows "dom (mark_lanes (robots fm) Map.empty) \<subseteq> dom occ_b \<and>
         dom occ_b \<subseteq> dom (occupied_lanes (fst (update_robots fm now dt c d))) \<and>
         is_lane_blocked occ_b (fst L) (snd L) kb \<and>
         (\<forall>rs'. (\<forall>(k, r) \<in> set rs'. get_current_lane r \<noteq> Some L) \<longrightarrow>
                \<not> is_lane_blocked (mark_lanes rs' Map.empty) (fst L) (snd L) kb)"
proof -
  let ?rs = "robots fm"
  let ?occ0 = "mark_lanes ?rs Map.empty"
  have occ_b: "occ_b = fst (update_each now dt c d ?occ0 (pre @ (ka, a) # mid))"
    using assms(5) by simp
  have 1: "dom ?occ0 \<subseteq> dom occ_b"
  proof
    fix l assume "l \<in> dom ?occ0"
    then have "?occ0 l \<noteq> None" by auto
    then have "fst (update_each now dt c d ?occ0 (pre @ (ka, a) # mid)) l \<noteq> None"
      by (rule update_each_keeps)
    then show "l \<in> dom occ_b" unfolding occ_b by (simp only: domIff not_False_eq_True)
  qed
  have split: "?rs = (pre @ (ka, a) # mid) @ (kb, b) # post" using assms(3) by simp
  have fin: "occupied_lanes (fst (update_robots fm now dt c d))
               = fst (update_each now dt c d occ_b ((kb, b) # post))"
    by (simp add: update_robots_unfold, subst (2) split, subst update_each_append)
       (simp add: assms(5) split: prod.splits)
  have 2: "dom occ_b \<subseteq> dom (occupied_lanes (fst (update_robots fm now dt c d)))"
  proof
    fix l assume "l \<in> dom occ_b"
    then have "occ_b l \<noteq> None" by auto
    then have "fst (update_each now dt c d occ_b ((kb, b) # post)) l \<noteq> None"
      by (rule update_each_keeps)
    then show "l \<in> dom (occupied_lanes (fst (update_robots fm now dt c d)))"
      unfolding fin by (simp only: domIff not_False_eq_True)
  qed
  from update_each_prefix [OF assms(5)] obtain occ_a pre' rest' where
    p1: "update_each now dt c d ?occ0 pre = (occ_a, pre', None)" and
    p2: "update_each now dt c d occ_a ((ka, a) # mid) = (occ_b, rest', None)" and
    seen: "seen = pre' @ rest'" by blast
  obtain a1 ch where u: "update a now dt c d (is_lane_blocked occ_a) = Inr (a1, ch)"
    using p2 by (cases "update a now dt c d (is_lane_blocked occ_a)") auto
  let ?occ_a' = "write_lane occ_a ka a1 ch"
  from p2 have rest': "rest' = (ka, a1) # fst (snd (update_each now dt c d ?occ_a' mid))"
    and occ_b': "occ_b = fst (update_each now dt c d ?occ_a' mid)"
    unfolding update_each_step [OF u] by simp_all
  have keys: "distinct (map fst pre @ ka # map fst mid @ kb # map fst post)"
    using assms(1,3) by simp
  have "map fst pre' = map fst pre"
    using update_each_keys [of now dt c d ?occ0 pre] p1 by simp
  then have "set (map fst pre') = set (map fst pre)" by simp
  then have "ka \<notin> fst ` set pre'" using keys by simp
  then have "map_of pre' ka = None" by (simp add: map_of_eq_None_iff)
  with assms(6) seen rest' have a1: "a1 = a'" by (simp add: map_add_def)
  have ida: "robot_id a = ka" using assms(2,3) by auto
  have "(ka, a) \<in> set ?rs" using assms(3) by simp
  then have "?occ0 L \<noteq> None" using assms(4) by (rule mark_lanes_present)
  from turn_table_value [OF p1 this] have "occ_a L \<noteq> None" by auto
  from unblocked_holder [OF assms(4) u _ this] assms(7) a1 ida
  have "occ_a L = Some ka" by simp
  then have "?occ_a' L = Some ka"
    by (auto simp: write_lane_def split: option.splits)
  then have "?occ_a' L \<noteq> None" by simp
  then have "fst (update_each now dt c d ?occ_a' mid) L \<noteq> None"
    by (rule update_each_keeps)
  then obtain k where
    k: "fst (update_each now dt c d ?occ_a' mid) L = Some k" by blast
  from update_each_value [OF k] \<open>?occ_a' L = Some ka\<close>
  have "k = ka \<or> k \<in> fst ` set mid" by auto
  then have "k \<noteq> kb" using keys by auto
  with k occ_b' have 3: "is_lane_blocked occ_b (fst L) (snd L) kb"
    by (simp add: is_lane_blocked_def)
  have 4: "\<not> is_lane_blocked (mark_lanes rs' Map.empty) (fst L) (snd L) kb"
    if "\<forall>(k, r) \<in> set rs'. get_current_lane r \<noteq> Some L" for rs'
    using mark_lanes_absent [OF that, of Map.empty] by (simp add: is_lane_blocked_def)
  from 1 2 3 4 show ?thesis by blast
qed

theorem single_snapshot_occupancy_witness:
  "update_each 0 1 (\<lambda>v. (real v, 0)) (\<lambda>u v. 1)
          (mark_lanes
             [(''R1'', (new_robot ''R1'' 0 (0, 0) ''#00FF00'' 0)
                          \<lparr> state := MOVING, path := [0, 1], destination_idx := Some 1 \<rparr>),
              (''R2'', (new_robot ''R2'' 0 (0, 0) ''#0000FF'' 0)
                          \<lparr> state := WAITING, path := [0, 1], destination_idx := Some 1 \<rparr>)] Map.empty)
          [(''R1'', (new_robot ''R1'' 0 (0, 0) ''#00FF00'' 0)
                       \<lparr> state := MOVING, path := [0, 1], destination_idx := Some 1 \<rparr>)]
     = ([(0, 1) \<mapsto> ''R1''],
        [(''R1'', (new_robot ''R1'' 0 (0, 0) ''#00FF00'' 0)
                    \<lparr> state := TASK_COMPLETE, path := [0, 1], destination_idx := Some 1, position := (1, 0),
                       position_idx := 1, current_path_index := 1 \<rparr>)], None) \<and>
   is_lane_blocked [(0, 1) \<mapsto> ''R1''] 0 1 ''R2''"
proof -
  let ?a = "(new_robot ''R1'' 0 (0, 0) ''#00FF00'' 0)\<lparr> state := MOVING, path := [0, 1], destination_idx := Some 1 \<rparr>"
  let ?b = "(new_robot ''R2'' 0 (0, 0) ''#0000FF'' 0)\<lparr> state := WAITING, path := [0, 1], destination_idx := Some 1 \<rparr>"
  let ?a' = "(new_robot ''R1'' 0 (0, 0) ''#00FF00'' 0)
                    \<lparr> state := TASK_COMPLETE, path := [0, 1], destination_idx := Some 1, position := (1, 0),
                       position_idx := 1, current_path_index := 1 \<rparr>"
  let ?fm = "\<lparr> nav_graph = \<lparr> vertices = [(0, 0), (1, 0)], lanes = [], adjacency_list = Map.empty \<rparr>,
              robots = [(''R1'', ?a), (''R2'', ?b)],
              robot_count = 2, occupied_lanes = Map.empty \<rparr>"
  let ?c = "\<lambda>v::nat. (real v, 0::real)"
  let ?d = "\<lambda>(u::nat) (v::nat). 1::real"
  let ?occ = "[(0 :: nat, 1 :: nat) \<mapsto> ''R1'']"
  have la: "get_current_lane ?a = Some (0, 1)"
    by (simp add: get_current_lane_def new_robot_def)
  have occ0: "mark_lanes [(''R1'', ?a), (''R2'', ?b)] Map.empty = ?occ"
    by (simp add: get_current_lane_def new_robot_def)
  have ua: "update ?a 0 1 ?c ?d (is_lane_blocked ?occ) = Inr (?a', True)"
    by (simp add: update_def update_moving_def is_lane_blocked_def new_robot_def
          DEFAULT_SPEED_def Let_def)
  have la': "get_current_lane ?a' = None"
    by (simp add: get_current_lane_def)
  have run: "update_each 0 1 ?c ?d (mark_lanes (robots ?fm) Map.empty) ([] @ (''R1'', ?a) # [])
               = (?occ, [(''R1'', ?a')], None)"
  proof -
    have 1: "mark_lanes (robots ?fm) Map.empty = ?occ"
      by (simp only: fleet_manager.select_convs occ0)
    show ?thesis
      unfolding 1 append_Nil update_each_step [OF ua]
      by (simp add: write_lane_def get_current_lane_def)
  qed
  have "dom (mark_lanes (robots ?fm) Map.empty) \<subseteq> dom ?occ \<and>
         dom ?occ \<subseteq> dom (occupied_lanes (fst (update_robots ?fm 0 1 ?c ?d))) \<and>
         is_lane_blocked ?occ (fst (0 :: nat, 1 :: nat)) (snd (0 :: nat, 1 :: nat)) ''R2'' \<and>
         (\<forall>rs'. (\<forall>(k, r) \<in> set rs'. get_current_lane r \<noteq> Some (0, 1)) \<longrightarrow>
                \<not> is_lane_blocked (mark_lanes rs' Map.empty)
                     (fst (0 :: nat, 1 :: nat)) (snd (0 :: nat, 1 :: nat)) ''R2'')"
    by (rule single_snapshot_occupancy [where pre = "[]" and mid = "[]" and post = "[]"
          and a = ?a and b = ?b and ka = "''R1''" and a' = ?a'
          and seen = "[(''R1'', ?a')]", OF _ _ _ la run])
       (simp_all add: new_robot_def)
  then have "is_lane_blocked ?occ 0 1 ''R2''" by simp
  moreover from run have "update_each 0 1 ?c ?d (mark_lanes [(''R1'', ?a), (''R2'', ?b)] Map.empty)
     [(''R1'', ?a)] = (?occ, [(''R1'', ?a')], None)" by simp
  ultimately show ?thesis by simp
qed



section \<open>Shortest paths\<close>

lemma fle_simps [simp]:
  "fle (Num a) (Num b) = (a \<le> b)" "fle x Infty" "fle Infty (Num a) = False"
  by (cases x; simp add: fle_def not_less)+

lemma fle_refl [simp]: "fle a a" by (cases a) auto
lemma fle_total: "fle a b \<or> fle b a" by (cases a; cases b) auto











lemma walk_nonempty: "walk adj q \<Longrightarrow> q \<noteq> []"
  by (cases q) auto





































end
